theory Spec2Isabelle
  imports Complex_Main
begin

section \<open>The login attempt state machine of the login form\<close>

text \<open>
  The development embeds \<^verbatim>\<open>mockLogin\<close> (the component file holding the form, lines 19-63)
  together with the declarations it imports from the utilities module: the response type
  \<^verbatim>\<open>LoginResponse\<close>, the directory type \<^verbatim>\<open>DemoDB\<close>, the directory \<^verbatim>\<open>DEMO_DB\<close> and
  \<^verbatim>\<open>sleep\<close>.

  Conventions of the embedding.
  \<^item> The two module-level variables \<^verbatim>\<open>attemptCounter\<close> and \<^verbatim>\<open>lockedUntil\<close> are the fields
    of the record \<open>globals\<close>; \<open>mockLogin\<close> takes the record and returns the updated one.
  \<^item> Everything the function reads from its surroundings is an explicit input, the record
    \<open>env\<close>: the value of the first \<^verbatim>\<open>Math.random()\<close>, the two readings of \<^verbatim>\<open>Date.now()\<close>
    and the value of \<^verbatim>\<open>Math.random().toString(36)\<close>.
  \<^item> The effects that take time or read shared data are logged in program order
    (\<open>event\<close>), so that "before" and "after" inside one call can be stated.
  \<^item> Counters and clock readings are JavaScript numbers holding integers far below
    \<open>2^53\<close>, where addition and subtraction of doubles are exact; they are modelled by
    \<open>int\<close>. The argument of \<^verbatim>\<open>sleep\<close> and the quotient by 1000 in the lock message are
    genuine double computations and are modelled with the rounding written out
    (section \<open>Doubles\<close>).
  \<^item> Strings are lists of code units below 256 (\<open>string\<close>).
\<close>

subsection \<open>Doubles\<close>

text \<open>
  A finite double is modelled by the rational number it denotes. \<open>fl\<close> rounds a rational
  to the nearest double, ties to the even significand (the rounding of every IEEE 754
  binary64 operation, which ECMAScript prescribes for \<^verbatim>\<open>+\<close>, \<^verbatim>\<open>*\<close> and \<^verbatim>\<open>/\<close> on numbers).
  The spacing of the doubles around \<open>x\<close> is \<open>ulp x\<close>; \<open>fl x\<close> is the multiple of \<open>ulp x\<close>
  nearest to \<open>x\<close>. Overflow to infinity (from \<open>2^1024\<close> on) is not modelled.
\<close>

fun bits :: "nat \<Rightarrow> nat" where
  "bits n = (if n = 0 then 0 else Suc (bits (n div 2)))"

declare bits.simps [simp del]

definition binexp :: "rat \<Rightarrow> int" where
  \<comment> \<open>for \<open>0 < x\<close>: the \<open>e\<close> with \<open>2^e \<le> x < 2^(e+1)\<close>\<close>
  "binexp x =
     (if 1 \<le> x then int (bits (nat \<lfloor>x\<rfloor>)) - 1
      else - int (bits (nat (\<lceil>1 / x\<rceil> - 1))))"

definition ulp :: "rat \<Rightarrow> rat" where
  \<comment> \<open>the spacing of the doubles around \<open>x\<close>: 53 significant bits, subnormals below \<open>2^-1022\<close>\<close>
  "ulp x = 2 powi (max (binexp x) (- 1022) - 52)"

definition rne :: "rat \<Rightarrow> int" where
  \<comment> \<open>round to the nearest integer, a tie to the even one\<close>
  "rne q =
     (let f = \<lfloor>q\<rfloor>; d = q - of_int f
      in if d < 1 / 2 then f
         else if 1 / 2 < d then f + 1
         else if even f then f else f + 1)"

definition fl :: "rat \<Rightarrow> rat" where
  "fl x =
     (if x = 0 then 0
      else if x < 0 then - (of_int (rne (- x / ulp (- x))) * ulp (- x))
      else of_int (rne (x / ulp x)) * ulp x)"

definition double_add :: "rat \<Rightarrow> rat \<Rightarrow> rat" where
  "double_add x y = fl (x + y)"

definition double_mul :: "rat \<Rightarrow> rat \<Rightarrow> rat" where
  "double_mul x y = fl (x * y)"

definition double_div :: "rat \<Rightarrow> rat \<Rightarrow> rat" where
  "double_div x y = fl (x / y)"

definition is_double :: "rat \<Rightarrow> bool" where
  "is_double x = (fl x = x)"

subsection \<open>Strings\<close>

definition lowerChar :: "char \<Rightarrow> char" where
  \<comment> \<open>the lower-case mapping of Unicode on the code units below 256: A-Z, and the
      capital letters U+00C0 to U+00DE without the multiplication sign U+00D7\<close>
  "lowerChar c =
     (let n = (of_char c :: nat)
      in if (65 \<le> n \<and> n \<le> 90) \<or> (192 \<le> n \<and> n \<le> 222 \<and> n \<noteq> 215)
         then char_of (n + 32) else c)"

definition toLowerCase :: "string \<Rightarrow> string" where
  "toLowerCase s = map lowerChar s"

definition digit :: "nat \<Rightarrow> char" where
  "digit d = char_of (48 + d)"

fun decimal :: "nat \<Rightarrow> string" where
  "decimal n = (if n < 10 then [digit n] else decimal (n div 10) @ [digit (n mod 10)])"

declare decimal.simps [simp del]

definition showInt :: "int \<Rightarrow> string" where
  \<comment> \<open>an integral number inside a template literal\<close>
  "showInt i = (if i < 0 then CHR ''-'' # decimal (nat (- i)) else decimal (nat i))"

subsection \<open>Types of the utilities module\<close>

text \<open>
  \<^verbatim>\<open>LoginResponse\<close> is a union of two object types told apart by the field \<^verbatim>\<open>ok\<close>:
  \<open>Success\<close> is the variant with \<^verbatim>\<open>ok: true\<close>, \<open>Failure\<close> the one with \<^verbatim>\<open>ok: false\<close>. The
  directory is an object used as a dictionary from strings to entries.
\<close>

datatype failure_code = INVALID_CREDENTIALS | LOCKED

datatype LoginResponse =
    Success (token: string)
  | Failure (code: failure_code) (message: string)

record entry =
  password :: string

type_synonym DemoDB = "string \<rightharpoonup> entry"

definition DEMO_DB :: DemoDB where
  "DEMO_DB = [''mock@email.com'' \<mapsto> \<lparr>password = ''Password123''\<rparr>]"

subsection \<open>State, environment, effects\<close>

record globals =
  attemptCounter :: int
  lockedUntil :: int

definition initial :: globals where
  "initial = \<lparr>attemptCounter = 0, lockedUntil = 0\<rparr>"

record env =
  random1 :: rat     \<comment> \<open>\<^verbatim>\<open>Math.random()\<close> in the argument of \<^verbatim>\<open>sleep\<close>\<close>
  now1 :: int        \<comment> \<open>\<^verbatim>\<open>Date.now()\<close> after the sleep\<close>
  now2 :: int        \<comment> \<open>\<^verbatim>\<open>Date.now()\<close> when the lock is set\<close>
  random36 :: string \<comment> \<open>\<^verbatim>\<open>Math.random().toString(36)\<close> of the token\<close>

datatype event = Sleep rat | DateNow int | Lookup string

record result =
  response :: LoginResponse
  after :: globals
  events :: "event list"

subsection \<open>mockLogin\<close>

definition delayMs :: "rat \<Rightarrow> rat" where
  \<comment> \<open>\<^verbatim>\<open>700 + Math.random() * 500\<close>\<close>
  "delayMs r = double_add 700 (double_mul r 500)"

definition isLocked :: "globals \<Rightarrow> int \<Rightarrow> bool" where
  \<comment> \<open>\<^verbatim>\<open>now < lockedUntil\<close>\<close>
  "isLocked g now = (now < lockedUntil g)"

text \<open>
  A key that the directory does not hold gives \<^verbatim>\<open>undefined\<close>, which is falsy. (A key that
  names a member every object inherits, such as "constructor", gives an object
  without a string \<^verbatim>\<open>password\<close>; the strict comparison is false then too, as for a missing
  entry.)
\<close>

definition correct :: "DemoDB \<Rightarrow> string \<Rightarrow> string \<Rightarrow> bool" where
  \<comment> \<open>\<^verbatim>\<open>record && record.password === password\<close>, with \<^verbatim>\<open>record = DEMO_DB[email.toLowerCase()]\<close>\<close>
  "correct db email passwd =
     (case db (toLowerCase email) of
        None \<Rightarrow> False
      | Some record \<Rightarrow> password record = passwd)"

definition mockLogin :: "DemoDB \<Rightarrow> env \<Rightarrow> string \<Rightarrow> string \<Rightarrow> globals \<Rightarrow> result" where
  "mockLogin db e email passwd g =
     (let slept = [Sleep (delayMs (random1 e))];
          now = now1 e
      in if isLocked g now then
           let remain = \<lceil>double_div (of_int (lockedUntil g - now)) 1000\<rceil>
           in \<lparr>response = Failure LOCKED
                  (''Too many attempts. Try again in '' @ showInt remain @ ''s.''),
               after = g,
               events = slept @ [DateNow now]\<rparr>
         else
           let looked = slept @ [DateNow now, Lookup (toLowerCase email)]
           in if \<not> correct db email passwd then
                let g1 = g\<lparr>attemptCounter := attemptCounter g + 1\<rparr>
                in if 5 \<le> attemptCounter g1 then
                     \<lparr>response = Failure LOCKED
                        ''Account temporarily locked due to repeated failures. Please wait 30 seconds.'',
                      after = g1\<lparr>lockedUntil := now2 e + 30000, attemptCounter := 0\<rparr>,
                      events = looked @ [DateNow (now2 e)]\<rparr>
                   else
                     \<lparr>response = Failure INVALID_CREDENTIALS ''Email or password is incorrect.'',
                      after = g1,
                      events = looked\<rparr>
              else
                \<lparr>response = Success (drop 2 (random36 e)),
                 after = g\<lparr>attemptCounter := 0\<rparr>,
                 events = looked\<rparr>)"

subsection \<open>Consecutive calls\<close>

text \<open>
  The form awaits each call before it accepts the next submission, so calls follow one
  another; each call has its own environment and starts in the state the previous one
  left. \<open>calls\<close> returns the responses in order, and the final state.
\<close>

fun calls :: "DemoDB \<Rightarrow> globals \<Rightarrow> (env \<times> string \<times> string) list
    \<Rightarrow> LoginResponse list \<times> globals" where
  "calls db g [] = ([], g)"
| "calls db g ((e, email, passwd) # as) =
     (let r = mockLogin db e email passwd g;
          (rs, g') = calls db (after r) as
      in (response r # rs, g'))"

definition counter_ok :: "globals \<Rightarrow> bool" where
  \<comment> \<open>the range of \<^verbatim>\<open>attemptCounter\<close> between calls\<close>
  "counter_ok g = (0 \<le> attemptCounter g \<and> attemptCounter g \<le> 4)"

section \<open>Auxiliary facts\<close>

subsection \<open>Evaluation of numerals and digits\<close>

lemma ceiling_rat_numeral:
  "\<lceil>numeral a / numeral b :: rat\<rceil> = - (- numeral a div numeral b)"
  using ceiling_divide_eq_div [of "numeral a" "numeral b", where ?'a = rat] by simp

lemma floor_rat_numeral:
  "\<lfloor>numeral a / numeral b :: rat\<rfloor> = numeral a div numeral b"
  using floor_divide_of_int_eq [of "numeral a" "numeral b", where ?'a = rat] by simp

lemma digit_values:
  "digit 0 = CHR ''0''" "digit 1 = CHR ''1''" "digit 2 = CHR ''2''" "digit 3 = CHR ''3''"
  "digit 4 = CHR ''4''" "digit 5 = CHR ''5''" "digit 6 = CHR ''6''" "digit 7 = CHR ''7''"
  "digit 8 = CHR ''8''" "digit 9 = CHR ''9''"
  by code_simp+

subsection \<open>The four paths through mockLogin\<close>

lemma mockLogin_locked:
  "now1 e < lockedUntil g \<Longrightarrow>
   mockLogin db e email passwd g =
     \<lparr>response = Failure LOCKED
        (''Too many attempts. Try again in ''
           @ showInt \<lceil>double_div (of_int (lockedUntil g - now1 e)) 1000\<rceil> @ ''s.''),
      after = g,
      events = [Sleep (delayMs (random1 e)), DateNow (now1 e)]\<rparr>"
  by (simp add: mockLogin_def isLocked_def Let_def)

lemma mockLogin_trigger:
  "\<not> now1 e < lockedUntil g \<Longrightarrow> \<not> correct db email passwd \<Longrightarrow> 4 \<le> attemptCounter g \<Longrightarrow>
   mockLogin db e email passwd g =
     \<lparr>response = Failure LOCKED
        ''Account temporarily locked due to repeated failures. Please wait 30 seconds.'',
      after = \<lparr>attemptCounter = 0, lockedUntil = now2 e + 30000\<rparr>,
      events = [Sleep (delayMs (random1 e)), DateNow (now1 e), Lookup (toLowerCase email),
                DateNow (now2 e)]\<rparr>"
  by (simp add: mockLogin_def isLocked_def Let_def)

lemma mockLogin_invalid:
  "\<not> now1 e < lockedUntil g \<Longrightarrow> \<not> correct db email passwd \<Longrightarrow> attemptCounter g < 4 \<Longrightarrow>
   mockLogin db e email passwd g =
     \<lparr>response = Failure INVALID_CREDENTIALS ''Email or password is incorrect.'',
      after = g\<lparr>attemptCounter := attemptCounter g + 1\<rparr>,
      events = [Sleep (delayMs (random1 e)), DateNow (now1 e), Lookup (toLowerCase email)]\<rparr>"
  by (simp add: mockLogin_def isLocked_def Let_def)

lemma mockLogin_success:
  "\<not> now1 e < lockedUntil g \<Longrightarrow> correct db email passwd \<Longrightarrow>
   mockLogin db e email passwd g =
     \<lparr>response = Success (drop 2 (random36 e)),
      after = g\<lparr>attemptCounter := 0\<rparr>,
      events = [Sleep (delayMs (random1 e)), DateNow (now1 e), Lookup (toLowerCase email)]\<rparr>"
  by (simp add: mockLogin_def isLocked_def Let_def)

lemma mockLogin_cases:
  obtains (locked) "now1 e < lockedUntil g"
  | (trigger) "\<not> now1 e < lockedUntil g" "\<not> correct db email passwd" "4 \<le> attemptCounter g"
  | (invalid) "\<not> now1 e < lockedUntil g" "\<not> correct db email passwd" "attemptCounter g < 4"
  | (success) "\<not> now1 e < lockedUntil g" "correct db email passwd"
  by fastforce

lemma lower_demo_key: "toLowerCase ''mock@email.com'' = ''mock@email.com''"
  by code_simp

lemma lower_demo_mixed: "toLowerCase ''Mock@Email.COM'' = ''mock@email.com''"
  by code_simp

text \<open>Lower-casing twice is lower-casing once: every key of a lookup is in lower case.\<close>

lemma lowerChar_idem: "lowerChar (lowerChar c) = lowerChar c"
proof -
  define n where "n = (of_char c :: nat)"
  have n: "n < 256" unfolding n_def by simp
  show ?thesis
  proof (cases "(65 \<le> n \<and> n \<le> 90) \<or> (192 \<le> n \<and> n \<le> 222 \<and> n \<noteq> 215)")
    case True
    then have l: "lowerChar c = char_of (n + 32)" by (simp add: lowerChar_def n_def)
    have "(of_char (char_of (n + 32)) :: nat) = n + 32" using True by auto
    then have "lowerChar (char_of (n + 32)) = char_of (n + 32)"
      using True by (auto simp: lowerChar_def Let_def)
    with l show ?thesis by simp
  next
    case False
    then have "lowerChar c = c" unfolding lowerChar_def Let_def n_def by auto
    then show ?thesis by simp
  qed
qed

lemma toLowerCase_idem: "toLowerCase (toLowerCase s) = toLowerCase s"
  by (simp add: toLowerCase_def lowerChar_idem)

subsection \<open>Rounding to a double\<close>

lemma bits_upper: "n < 2 ^ bits n"
proof (induction n rule: bits.induct)
  case (1 n)
  show ?case
  proof (cases "n = 0")
    case True
    then show ?thesis by (simp add: bits.simps)
  next
    case False
    with 1 have "n div 2 < 2 ^ bits (n div 2)" by simp
    then have "n < 2 * 2 ^ bits (n div 2)" by linarith
    with False show ?thesis by (subst bits.simps) simp
  qed
qed

lemma bits_lower: "0 < n \<Longrightarrow> 2 ^ (bits n - 1) \<le> n"
proof (induction n rule: bits.induct)
  case (1 n)
  then have n: "n \<noteq> 0" by simp
  show ?case
  proof (cases "n div 2 = 0")
    case True
    then have "bits (n div 2) = 0" by (simp add: bits.simps)
    with n have "bits n = 1" by (subst bits.simps) simp
    with 1 show ?thesis by simp
  next
    case False
    with 1 n have ih: "2 ^ (bits (n div 2) - 1) \<le> n div 2" by simp
    from False have "0 < bits (n div 2)" by (subst bits.simps) simp
    then have "(2::nat) ^ bits (n div 2) = 2 * 2 ^ (bits (n div 2) - 1)"
      by (cases "bits (n div 2)") simp_all
    with ih have "2 ^ bits (n div 2) \<le> n" by linarith
    with n show ?thesis by (subst bits.simps) simp
  qed
qed

lemma bits_le: "n < 2 ^ k \<Longrightarrow> bits n \<le> k"
proof -
  assume a: "n < 2 ^ k"
  show ?thesis
  proof (cases "n = 0")
    case True
    then show ?thesis by (simp add: bits.simps)
  next
    case False
    then have "(2::nat) ^ (bits n - 1) \<le> n" using bits_lower [of n] by simp
    with a have "(2::nat) ^ (bits n - 1) < 2 ^ k" by linarith
    then have "bits n - 1 < k" by simp
    then show ?thesis by linarith
  qed
qed

lemma binexp_le:
  assumes "0 < x" "x < 2 ^ 53"
  shows "binexp x \<le> 52"
proof (cases "1 \<le> x")
  case True
  have "\<lfloor>x\<rfloor> < 2 ^ 53" using assms(2) by (simp add: floor_less_iff)
  moreover have "0 \<le> \<lfloor>x\<rfloor>" using True by simp
  ultimately have "nat \<lfloor>x\<rfloor> < 2 ^ 53"
    by (simp add: nat_less_iff)
  then have "bits (nat \<lfloor>x\<rfloor>) \<le> 53" by (rule bits_le)
  with True show ?thesis by (simp add: binexp_def)
next
  case False
  then show ?thesis by (simp add: binexp_def)
qed

lemma ulp_pos: "0 < ulp x"
  by (simp add: ulp_def)

lemma ulp_normal:
  assumes "binexp x = e" "- 1022 \<le> e" "e \<le> 52"
  shows "ulp x = 1 / 2 ^ nat (52 - e)"
proof -
  have "max e (- 1022) - 52 = - int (nat (52 - e))" using assms(2,3) by simp
  then have "ulp x = 2 powi (- int (nat (52 - e)))" by (simp add: ulp_def assms(1))
  also have "\<dots> = inverse (2 powi int (nat (52 - e)))" by (rule power_int_minus)
  also have "\<dots> = 1 / 2 ^ nat (52 - e)" by (simp only: power_int_of_nat inverse_eq_divide)
  finally show ?thesis .
qed

lemma ulp_inverse:
  assumes "0 < x" "x < 2 ^ 53"
  shows "\<exists>n::nat. 1 / ulp x = 2 ^ n"
proof -
  define k where "k = max (binexp x) (- 1022) - 52"
  have "k \<le> 0" using binexp_le [OF assms] by (simp add: k_def)
  then have "k = - int (nat (- k))" by simp
  then have "(2::rat) powi k = 2 powi (- int (nat (- k)))" by simp
  also have "\<dots> = inverse (2 powi int (nat (- k)))" by (rule power_int_minus)
  also have "\<dots> = 1 / 2 ^ nat (- k)" by (simp only: power_int_of_nat inverse_eq_divide)
  finally have "(2::rat) powi k = 1 / 2 ^ nat (- k)" .
  then have "1 / ulp x = 2 ^ nat (- k)" by (simp add: ulp_def k_def)
  then show ?thesis ..
qed

lemma rne_le: "q \<le> of_int m \<Longrightarrow> rne q \<le> m"
  unfolding rne_def Let_def by (auto simp: floor_le_iff)

lemma rne_ge: "of_int m \<le> q \<Longrightarrow> m \<le> rne q"
proof -
  assume "of_int m \<le> q"
  then have "m \<le> \<lfloor>q\<rfloor>" by (simp add: le_floor_iff)
  then show ?thesis unfolding rne_def Let_def by auto
qed

lemma rne_down: "of_int f \<le> q \<Longrightarrow> q < of_int f + 1 / 2 \<Longrightarrow> rne q = f"
proof -
  assume a: "of_int f \<le> q" "q < of_int f + 1 / 2"
  then have "\<lfloor>q\<rfloor> = f" by (intro floor_unique) simp_all
  with a show ?thesis by (simp add: rne_def Let_def)
qed

lemma rne_up: "of_int f + 1 / 2 < q \<Longrightarrow> q \<le> of_int f + 1 \<Longrightarrow> rne q = f + 1"
proof (cases "q = of_int f + 1")
  case True
  then have "\<lfloor>q\<rfloor> = f + 1" by simp
  with True show ?thesis by (simp add: rne_def Let_def)
next
  case False
  assume a: "of_int f + 1 / 2 < q" "q \<le> of_int f + 1"
  with False have "\<lfloor>q\<rfloor> = f" by (intro floor_unique) simp_all
  with a show ?thesis by (simp add: rne_def Let_def)
qed

lemma rne_tie: "q = of_int f + 1 / 2 \<Longrightarrow> rne q = (if even f then f else f + 1)"
proof -
  assume q: "q = of_int f + 1 / 2"
  then have "\<lfloor>q\<rfloor> = f" by (intro floor_unique) simp_all
  with q show ?thesis by (simp add: rne_def Let_def)
qed

text \<open>Rounding does not cross an integer: every integer below \<open>2^53\<close> is a double.\<close>

lemma fl_le:
  assumes "0 < x" "x < 2 ^ 53" "x \<le> of_int c"
  shows "fl x \<le> of_int c"
proof -
  obtain n :: nat where n: "1 / ulp x = 2 ^ n" using ulp_inverse [OF assms(1,2)] ..
  have u: "0 < ulp x" by (rule ulp_pos)
  have "x / ulp x \<le> of_int c / ulp x" using assms(3) u by (simp add: divide_right_mono)
  also have "of_int c / ulp x = of_int c * (1 / ulp x)" by simp
  also have "\<dots> = of_int (c * 2 ^ n)" by (simp add: n)
  finally have "rne (x / ulp x) \<le> c * 2 ^ n" by (rule rne_le)
  then have "(of_int (rne (x / ulp x)) :: rat) \<le> of_int (c * 2 ^ n)" by (simp only: of_int_le_iff)
  then have "of_int (rne (x / ulp x)) * ulp x \<le> of_int (c * 2 ^ n) * ulp x"
    using u by (simp only: mult_le_cancel_right_pos)
  also have "of_int (c * 2 ^ n) * ulp x = of_int c * ((1 / ulp x) * ulp x)" by (simp add: n)
  also have "\<dots> = of_int c" using u by simp
  finally show ?thesis using assms(1) by (simp add: fl_def)
qed

lemma fl_ge:
  assumes "0 < x" "x < 2 ^ 53" "of_int c \<le> x"
  shows "of_int c \<le> fl x"
proof -
  obtain n :: nat where n: "1 / ulp x = 2 ^ n" using ulp_inverse [OF assms(1,2)] ..
  have u: "0 < ulp x" by (rule ulp_pos)
  have "of_int (c * 2 ^ n) = of_int c * (1 / ulp x)" by (simp add: n)
  also have "\<dots> = of_int c / ulp x" by simp
  also have "\<dots> \<le> x / ulp x" using assms(3) u by (simp add: divide_right_mono)
  finally have "c * 2 ^ n \<le> rne (x / ulp x)" by (rule rne_ge)
  then have "(of_int (c * 2 ^ n) :: rat) \<le> of_int (rne (x / ulp x))" by (simp only: of_int_le_iff)
  then have le: "of_int (c * 2 ^ n) * ulp x \<le> of_int (rne (x / ulp x)) * ulp x"
    using u by (simp only: mult_le_cancel_right_pos)
  have "of_int c = of_int c * ((1 / ulp x) * ulp x)" using u by simp
  also have "\<dots> = of_int (c * 2 ^ n) * ulp x" by (simp add: n)
  also note le
  finally show ?thesis using assms(1) by (simp add: fl_def)
qed

lemma double_mul_500:
  assumes "0 \<le> r" "r < 1"
  shows "0 \<le> double_mul r 500 \<and> double_mul r 500 \<le> 500"
proof (cases "r = 0")
  case True
  then show ?thesis by (simp add: double_mul_def fl_def)
next
  case False
  with assms have pos: "0 < r * 500" by simp
  from assms have lt: "r * 500 < 500" by simp
  then have big: "r * 500 < 2 ^ 53" by simp
  have "of_int 0 \<le> fl (r * 500)" using pos big by (intro fl_ge) simp_all
  moreover have "fl (r * 500) \<le> of_int 500" using pos big lt by (intro fl_le) simp_all
  ultimately show ?thesis by (simp add: double_mul_def)
qed

lemma delayMs_bounds:
  assumes "0 \<le> r" "r < 1"
  shows "700 \<le> delayMs r \<and> delayMs r \<le> 1200"
proof -
  define p where "p = double_mul r 500"
  have p: "0 \<le> p" "p \<le> 500" using double_mul_500 [OF assms] by (simp_all add: p_def)
  then have pos: "0 < 700 + p" and big: "700 + p < 2 ^ 53" by simp_all
  have "of_int 700 \<le> fl (700 + p)" using pos big p by (intro fl_ge) simp_all
  moreover have "fl (700 + p) \<le> of_int 1200" using pos big p by (intro fl_le) simp_all
  ultimately show ?thesis by (simp add: delayMs_def double_add_def p_def)
qed

text \<open>
  Two checks of the model itself: \<open>binexp\<close> is the binary exponent, and \<open>fl\<close> moves a
  number by at most half the spacing of the doubles around it.
\<close>

lemma powi_nat: "(2::rat) powi (int n) = 2 ^ n"
  by (rule power_int_of_nat)

lemma powi_neg_nat: "(2::rat) powi (- int n) = 1 / 2 ^ n"
  by (simp only: power_int_minus power_int_of_nat inverse_eq_divide)

lemma binexp_bounds:
  assumes "0 < x"
  shows "2 powi binexp x \<le> x \<and> x < 2 powi (binexp x + 1)"
proof (cases "1 \<le> x")
  case True
  define n where "n = nat \<lfloor>x\<rfloor>"
  have n1: "1 \<le> n" using True by (simp add: n_def le_nat_iff)
  have nx: "of_nat n \<le> x" using True by (simp add: n_def)
  have "x < of_int \<lfloor>x\<rfloor> + 1" by linarith
  then have xn: "x < of_nat n + 1" using True by (simp add: n_def)
  have b1: "1 \<le> bits n" using n1 by (subst bits.simps) simp
  have lo: "2 ^ (bits n - 1) \<le> n" using n1 by (intro bits_lower) simp
  have "n + 1 \<le> 2 ^ bits n" using bits_upper [of n] by simp
  then have "(of_nat (n + 1) :: rat) \<le> of_nat (2 ^ bits n)" by (simp only: of_nat_le_iff)
  then have hi: "(of_nat n :: rat) + 1 \<le> 2 ^ bits n" by simp
  have e: "binexp x = int (bits n - 1)" using True b1 by (simp add: binexp_def n_def)
  have e1: "binexp x + 1 = int (bits n)" using e b1 by simp
  have "(2::rat) ^ (bits n - 1) = of_nat (2 ^ (bits n - 1))" by simp
  also have "\<dots> \<le> of_nat n" using lo by (simp only: of_nat_le_iff)
  also note nx
  finally have "(2::rat) ^ (bits n - 1) \<le> x" .
  moreover have "x < 2 ^ bits n" using xn hi by simp
  moreover have "2 powi binexp x = (2::rat) ^ (bits n - 1)" by (simp only: e powi_nat)
  moreover have "2 powi (binexp x + 1) = (2::rat) ^ bits n" by (simp only: e1 powi_nat)
  ultimately show ?thesis by (simp only:)
next
  case False
  define y where "y = 1 / x"
  have y1: "1 < y" using assms False by (simp add: y_def)
  define m where "m = nat (\<lceil>y\<rceil> - 1)"
  have cy: "2 \<le> \<lceil>y\<rceil>" using y1 by linarith
  have m1: "1 \<le> m" unfolding m_def using cy by linarith
  have om: "(of_nat m :: rat) = of_int \<lceil>y\<rceil> - 1" unfolding m_def using cy by simp
  have my: "of_nat m < y" unfolding om by linarith
  have ym: "y \<le> of_nat m + 1" unfolding om by linarith
  have c1: "1 \<le> bits m" using m1 by (subst bits.simps) simp
  have lo: "2 ^ (bits m - 1) \<le> m" using m1 by (intro bits_lower) simp
  have "m + 1 \<le> 2 ^ bits m" using bits_upper [of m] by simp
  then have "(of_nat (m + 1) :: rat) \<le> of_nat (2 ^ bits m)" by (simp only: of_nat_le_iff)
  then have hi: "y \<le> 2 ^ bits m" using ym by simp
  have "(2::rat) ^ (bits m - 1) = of_nat (2 ^ (bits m - 1))" by simp
  also have "\<dots> \<le> of_nat m" using lo by (simp only: of_nat_le_iff)
  also note my
  finally have low: "(2::rat) ^ (bits m - 1) < y" .
  have e: "binexp x = - int (bits m)" using False by (simp add: binexp_def m_def y_def)
  have e1: "binexp x + 1 = - int (bits m - 1)" using e c1 by simp
  have "1 / 2 ^ bits m \<le> x"
  proof -
    have "1 / 2 ^ bits m \<le> 1 / y" using hi y1 by (intro divide_left_mono) simp_all
    then show ?thesis using assms by (simp add: y_def)
  qed
  moreover have "x < 1 / 2 ^ (bits m - 1)"
  proof -
    have "0 < y * 2 ^ (bits m - 1)" using y1 by simp
    then have "1 / y < 1 / 2 ^ (bits m - 1)" using low by (intro divide_strict_left_mono) simp_all
    then show ?thesis using assms by (simp add: y_def)
  qed
  moreover have "2 powi binexp x = 1 / (2::rat) ^ bits m" by (simp only: e powi_neg_nat)
  moreover have "2 powi (binexp x + 1) = 1 / (2::rat) ^ (bits m - 1)"
    by (simp only: e1 powi_neg_nat)
  ultimately show ?thesis by (simp only:)
qed

lemma rne_near: "\<bar>of_int (rne q) - q\<bar> \<le> 1 / 2"
proof -
  define d where "d = q - of_int \<lfloor>q\<rfloor>"
  have d: "0 \<le> d" "d < 1" unfolding d_def by linarith+
  have q: "q = of_int \<lfloor>q\<rfloor> + d" by (simp add: d_def)
  consider "d < 1 / 2" | "1 / 2 < d" | "d = 1 / 2" by linarith
  then show ?thesis
  proof cases
    case 1
    then have "rne q = \<lfloor>q\<rfloor>" by (simp add: rne_def Let_def d_def)
    then have "of_int (rne q) - q = - d" by (simp add: d_def)
    with d 1 show ?thesis by simp
  next
    case 2
    then have "rne q = \<lfloor>q\<rfloor> + 1" by (simp add: rne_def Let_def d_def)
    then have "of_int (rne q) - q = 1 - d" by (simp add: d_def)
    with d 2 show ?thesis by simp
  next
    case 3
    then have "rne q = \<lfloor>q\<rfloor> \<or> rne q = \<lfloor>q\<rfloor> + 1" by (simp add: rne_def Let_def d_def)
    then have "of_int (rne q) - q = - d \<or> of_int (rne q) - q = 1 - d"
      by (auto simp: d_def)
    with 3 show ?thesis by auto
  qed
qed

lemma fl_near:
  assumes "0 < x"
  shows "\<bar>fl x - x\<bar> \<le> ulp x / 2"
proof -
  have u: "0 < ulp x" by (rule ulp_pos)
  have "fl x - x = (of_int (rne (x / ulp x)) - x / ulp x) * ulp x"
    using assms u by (simp add: fl_def field_simps)
  then have "\<bar>fl x - x\<bar> = \<bar>of_int (rne (x / ulp x)) - x / ulp x\<bar> * ulp x"
    using u by (simp add: abs_mult)
  also have "\<dots> \<le> 1 / 2 * ulp x"
    using rne_near [of "x / ulp x"] u by (intro mult_right_mono) simp_all
  finally show ?thesis by simp
qed

text \<open>
  The quotient \<^verbatim>\<open>(lockedUntil - now) / 1000\<close> is rounded as well. For a positive difference
  below \<open>2^52\<close> milliseconds the rounding error stays below the distance \<open>1/1000\<close> of the
  exact quotient from the integer beneath it, so that \<^verbatim>\<open>Math.ceil\<close> of the double is the
  ceiling of the exact quotient; for every positive difference it is at least 1.
\<close>

lemma binexp_less:
  assumes "0 < x" "x < 2 powi k"
  shows "binexp x < k"
proof (rule ccontr)
  assume "\<not> binexp x < k"
  then have "k \<le> binexp x" by simp
  then have "(2::rat) powi k \<le> 2 powi binexp x" by (intro power_int_increasing) simp_all
  also have "\<dots> \<le> x" using binexp_bounds [OF assms(1)] by simp
  finally show False using assms(2) by simp
qed

lemma binexp_ge:
  assumes "0 < x" "2 powi k \<le> x"
  shows "k \<le> binexp x"
proof (rule ccontr)
  assume "\<not> k \<le> binexp x"
  then have "binexp x + 1 \<le> k" by simp
  then have "(2::rat) powi (binexp x + 1) \<le> 2 powi k" by (intro power_int_increasing) simp_all
  also note assms(2)
  finally show False using binexp_bounds [OF assms(1)] by simp
qed

lemma fl_positive:
  assumes "2 powi (- 1022) \<le> x"
  shows "0 < fl x"
proof -
  have pos: "0 < x" using assms by (rule less_le_trans [rotated]) simp
  have e: "- 1022 \<le> binexp x" using pos assms by (rule binexp_ge)
  then have u: "ulp x = 2 powi (binexp x - 52)" by (simp add: ulp_def max_def)
  have "(2::rat) powi (binexp x - 52 + 52) = 2 powi (binexp x - 52) * 2 powi 52"
    by (intro power_int_add) simp
  then have "(2::rat) powi binexp x = ulp x * 2 ^ 52" by (simp add: u)
  then have "2 powi binexp x / ulp x = of_int (2 ^ 52)" using ulp_pos [of x] by simp
  moreover have "2 powi binexp x / ulp x \<le> x / ulp x"
    using binexp_bounds [OF pos] ulp_pos [of x] by (simp add: divide_right_mono)
  ultimately have "of_int (2 ^ 52) \<le> x / ulp x" by simp
  then have "2 ^ 52 \<le> rne (x / ulp x)" by (rule rne_ge)
  then have "0 < rne (x / ulp x)" by simp
  then have "0 < of_int (rne (x / ulp x)) * ulp x" using ulp_pos [of x] by simp
  then show ?thesis using pos by (simp add: fl_def)
qed

lemma remain_exact:
  assumes "0 < d" "d < 2 ^ 52"
  shows "\<lceil>double_div (of_int d) 1000\<rceil> = \<lceil>of_int d / (1000 :: rat)\<rceil>"
proof -
  define x :: rat where "x = of_int d / 1000"
  define c where "c = \<lceil>x\<rceil>"
  have pos: "0 < x" using assms(1) by (simp add: x_def)
  have "(of_int d :: rat) < of_int (2 ^ 52)" using assms(2) by (simp only: of_int_less_iff)
  then have lt: "x < 2 ^ 43" by (simp add: x_def)
  then have "x < 2 powi 43" by simp
  then have "binexp x < 43" using pos by (intro binexp_less)
  then have "max (binexp x) (- 1022) - 52 \<le> - 10" by simp
  then have "ulp x \<le> 2 powi (- 10)" unfolding ulp_def by (intro power_int_increasing) simp_all
  then have "ulp x / 2 \<le> 1 / 2048" by (simp add: power_int_minus_divide)
  with fl_near [OF pos] have near: "x - 1 / 2048 \<le> fl x" by linarith
  have "of_int c - 1 < x" unfolding c_def by linarith
  then have "of_int (1000 * (c - 1)) < (of_int d :: rat)" by (simp add: x_def)
  then have "1000 * (c - 1) < d" by (simp only: of_int_less_iff)
  then have "1000 * (c - 1) + 1 \<le> d" by simp
  then have "(of_int (1000 * (c - 1) + 1) :: rat) \<le> of_int d" by (simp only: of_int_le_iff)
  then have "of_int c - 1 + 1 / 1000 \<le> x" by (simp add: x_def)
  with near have lower: "of_int c - 1 < fl x" by simp
  have "x \<le> of_int c" unfolding c_def by linarith
  then have upper: "fl x \<le> of_int c" using pos lt by (intro fl_le) simp_all
  from lower upper have "\<lceil>fl x\<rceil> = c" by (intro ceiling_unique)
  then show ?thesis by (simp add: double_div_def x_def c_def)
qed

lemma remain_ge_1:
  assumes "0 < d"
  shows "1 \<le> \<lceil>double_div (of_int d) 1000\<rceil>"
proof -
  have "(1::rat) \<le> of_int d" using assms by simp
  then have "(1 / 1000 :: rat) \<le> of_int d / 1000" by simp
  moreover have "(2::rat) powi (- 1022) \<le> 2 powi (- 10)" by (intro power_int_increasing) simp_all
  moreover have "(2::rat) powi (- 10) \<le> 1 / 1000" by (simp add: power_int_minus_divide)
  ultimately have "(2::rat) powi (- 1022) \<le> of_int d / 1000" by linarith
  then have "0 < fl (of_int d / 1000)" by (rule fl_positive)
  then show ?thesis by (simp add: double_div_def)
qed

subsection \<open>Two evaluations of the delay\<close>

lemma bits_values: "bits 250 = 8" "bits 499 = 9" "bits 950 = 10" "bits 1199 = 11"
  by (simp_all add: bits.simps)

text \<open>The largest double below 1, \<open>1 - 2^-53\<close>, is a double of the model.\<close>

lemma is_double_top: "is_double (1 - 1 / 2 ^ 53)"
proof -
  define x :: rat where "x = 1 - 1 / 2 ^ 53"
  have pos: "0 < x" and lt: "\<not> 1 \<le> x" by (simp_all add: x_def)
  have "\<lceil>1 / x\<rceil> = 2" by (rule ceiling_unique) (simp_all add: x_def)
  then have "binexp x = - 1" using lt by (simp add: binexp_def bits.simps)
  then have u: "ulp x = 1 / 2 ^ 53" by (simp add: ulp_normal)
  have "rne (x / ulp x) = 9007199254740991"
    unfolding u by (rule rne_down) (simp_all add: x_def)
  then have "fl x = 9007199254740991 / 2 ^ 53" using pos by (simp add: fl_def u)
  then show ?thesis by (simp add: is_double_def x_def)
qed

text \<open>
  The product \<open>(1 - 2^-53) * 500\<close> is \<open>500 - 0.9765625 * 2^-44\<close> and rounds to the double
  \<open>500 - 2^-44\<close>; the sum \<open>1200 - 2^-44\<close> lies a quarter of the spacing \<open>2^-42\<close> below
  1200 and rounds to 1200.
\<close>

lemma double_mul_top: "double_mul (1 - 1 / 2 ^ 53) 500 = 500 - 1 / 2 ^ 44"
proof -
  define x :: rat where "x = (1 - 1 / 2 ^ 53) * 500"
  have pos: "0 < x" by (simp add: x_def)
  have "\<lfloor>x\<rfloor> = 499" by (rule floor_unique) (simp_all add: x_def)
  then have "binexp x = 8" using pos by (simp add: binexp_def x_def bits_values)
  then have u: "ulp x = 1 / 2 ^ 44" by (simp add: ulp_normal)
  have "rne (x / ulp x) = 8796093022207999"
    unfolding u by (rule rne_down) (simp_all add: x_def)
  then have "fl x = 8796093022207999 / 2 ^ 44" using pos by (simp add: fl_def u)
  then show ?thesis by (simp add: double_mul_def x_def)
qed

lemma double_add_top: "double_add 700 (500 - 1 / 2 ^ 44) = 1200"
proof -
  define x :: rat where "x = 700 + (500 - 1 / 2 ^ 44)"
  have pos: "0 < x" by (simp add: x_def)
  have "\<lfloor>x\<rfloor> = 1199" by (rule floor_unique) (simp_all add: x_def)
  then have "binexp x = 10" using pos by (simp add: binexp_def x_def bits_values)
  then have u: "ulp x = 1 / 2 ^ 42" by (simp add: ulp_normal)
  have "rne (x / ulp x) = 5277655813324799 + 1"
    unfolding u by (rule rne_up) (simp_all add: x_def)
  then have "fl x = 1200" using pos by (simp add: fl_def u)
  then show ?thesis by (simp add: double_add_def x_def)
qed

lemma delayMs_top: "delayMs (1 - 1 / 2 ^ 53) = 1200"
  by (simp only: delayMs_def double_mul_top double_add_top)

text \<open>
  The same for the draw \<open>1 - 2^-52\<close>, the largest one of a generator that takes 52 random
  bits: the product rounds to \<open>500 - 2^-43\<close>, and the sum \<open>1200 - 2^-43\<close> lies half way
  between two doubles, of which 1200 has the even significand.
\<close>

lemma is_double_top52: "is_double (1 - 1 / 2 ^ 52)"
proof -
  define x :: rat where "x = 1 - 1 / 2 ^ 52"
  have pos: "0 < x" and lt: "\<not> 1 \<le> x" by (simp_all add: x_def)
  have "\<lceil>1 / x\<rceil> = 2" by (rule ceiling_unique) (simp_all add: x_def)
  then have "binexp x = - 1" using lt by (simp add: binexp_def bits.simps)
  then have u: "ulp x = 1 / 2 ^ 53" by (simp add: ulp_normal)
  have "rne (x / ulp x) = 9007199254740990"
    unfolding u by (rule rne_down) (simp_all add: x_def)
  then have "fl x = 9007199254740990 / 2 ^ 53" using pos by (simp add: fl_def u)
  then show ?thesis by (simp add: is_double_def x_def)
qed

lemma double_mul_top52: "double_mul (1 - 1 / 2 ^ 52) 500 = 500 - 1 / 2 ^ 43"
proof -
  define x :: rat where "x = (1 - 1 / 2 ^ 52) * 500"
  have pos: "0 < x" by (simp add: x_def)
  have "\<lfloor>x\<rfloor> = 499" by (rule floor_unique) (simp_all add: x_def)
  then have "binexp x = 8" using pos by (simp add: binexp_def x_def bits_values)
  then have u: "ulp x = 1 / 2 ^ 44" by (simp add: ulp_normal)
  have "rne (x / ulp x) = 8796093022207998"
    unfolding u by (rule rne_down) (simp_all add: x_def)
  then have "fl x = 8796093022207998 / 2 ^ 44" using pos by (simp add: fl_def u)
  then show ?thesis by (simp add: double_mul_def x_def)
qed

lemma double_add_top52: "double_add 700 (500 - 1 / 2 ^ 43) = 1200"
proof -
  define x :: rat where "x = 700 + (500 - 1 / 2 ^ 43)"
  have pos: "0 < x" by (simp add: x_def)
  have "\<lfloor>x\<rfloor> = 1199" by (rule floor_unique) (simp_all add: x_def)
  then have "binexp x = 10" using pos by (simp add: binexp_def x_def bits_values)
  then have u: "ulp x = 1 / 2 ^ 42" by (simp add: ulp_normal)
  have "x / ulp x = of_int 5277655813324799 + 1 / 2" unfolding u by (simp add: x_def)
  then have "rne (x / ulp x) = (if even (5277655813324799 :: int) then 5277655813324799 else 5277655813324799 + 1)"
    by (rule rne_tie)
  then have "rne (x / ulp x) = 5277655813324800" by simp
  then have "fl x = 1200" using pos by (simp add: fl_def u)
  then show ?thesis by (simp add: double_add_def x_def)
qed

lemma delayMs_top52: "delayMs (1 - 1 / 2 ^ 52) = 1200"
  by (simp only: delayMs_def double_mul_top52 double_add_top52)

lemma double_mul_half: "double_mul (1 / 2) 500 = 250"
proof -
  have "binexp 250 = 7" by (simp add: binexp_def bits_values)
  then have u: "ulp 250 = 1 / 2 ^ 45" by (simp add: ulp_normal)
  have "rne (250 / ulp 250) = 8796093022208000"
    unfolding u by (rule rne_down) simp_all
  then have "fl 250 = 250" by (simp add: fl_def u)
  then show ?thesis by (simp add: double_mul_def)
qed

lemma double_add_half: "double_add 700 250 = 950"
proof -
  have "binexp 950 = 9" by (simp add: binexp_def bits_values)
  then have u: "ulp 950 = 1 / 2 ^ 43" by (simp add: ulp_normal)
  have "rne (950 / ulp 950) = 8356288371097600"
    unfolding u by (rule rne_down) simp_all
  then have "fl 950 = 950" by (simp add: fl_def u)
  then show ?thesis by (simp add: double_add_def)
qed

lemma delayMs_half: "delayMs (1 / 2) = 950"
  by (simp only: delayMs_def double_mul_half double_add_half)

subsection \<open>Steps and sequences of calls\<close>

lemma correct_iff:
  "correct db email passwd \<longleftrightarrow>
     (\<exists>r. db (toLowerCase email) = Some r \<and> password r = passwd)"
  by (simp add: correct_def split: option.splits)

lemma success_iff:
  "(\<exists>t. response (mockLogin db e email passwd g) = Success t) \<longleftrightarrow>
     \<not> now1 e < lockedUntil g \<and> correct db email passwd"
  by (cases rule: mockLogin_cases
        [where e = e and g = g and db = db and email = email and passwd = passwd])
     (simp_all add: mockLogin_locked mockLogin_trigger mockLogin_invalid mockLogin_success)

lemma invalid_step:
  assumes "response (mockLogin db e email passwd g) = Failure INVALID_CREDENTIALS m"
  shows "\<not> now1 e < lockedUntil g \<and> \<not> correct db email passwd \<and> attemptCounter g < 4
         \<and> after (mockLogin db e email passwd g) = g\<lparr>attemptCounter := attemptCounter g + 1\<rparr>"
proof (cases rule: mockLogin_cases
    [where e = e and g = g and db = db and email = email and passwd = passwd])
  case locked
  with assms show ?thesis by (simp add: mockLogin_locked)
next
  case trigger
  with assms show ?thesis by (simp add: mockLogin_trigger)
next
  case invalid
  then show ?thesis by (simp add: mockLogin_invalid)
next
  case success
  with assms show ?thesis by (simp add: mockLogin_success)
qed

lemma calls_Cons_snd:
  "snd (calls db g ((e, email, passwd) # as)) =
     snd (calls db (after (mockLogin db e email passwd g)) as)"
  by (simp add: Let_def split: prod.splits)

lemma calls_Cons_fst:
  "fst (calls db g ((e, email, passwd) # as)) =
     response (mockLogin db e email passwd g)
       # fst (calls db (after (mockLogin db e email passwd g)) as)"
  by (simp add: Let_def split: prod.splits)

text \<open>
  A run of calls that all answer \<open>INVALID_CREDENTIALS\<close> only counts: it adds the number
  of calls to \<open>attemptCounter\<close> and leaves \<open>lockedUntil\<close> alone.
\<close>

lemma invalid_calls:
  assumes "calls db g as = (rs, g')"
    and "\<forall>r \<in> set rs. \<exists>m. r = Failure INVALID_CREDENTIALS m"
  shows "g' = g\<lparr>attemptCounter := attemptCounter g + int (length as)\<rparr>"
  using assms
proof (induction as arbitrary: g rs g')
  case Nil
  then show ?case by simp
next
  case (Cons a as)
  obtain e email passwd where a: "a = (e, email, passwd)" by (cases a)
  define r where "r = mockLogin db e email passwd g"
  obtain rs1 g1 where c: "calls db (after r) as = (rs1, g1)" by (cases "calls db (after r) as")
  from Cons.prems(1) have rs: "rs = response r # rs1" and g': "g' = g1"
    by (simp_all add: a r_def [symmetric] c)
  from Cons.prems(2) rs obtain m where "response r = Failure INVALID_CREDENTIALS m" by auto
  then have step: "after r = g\<lparr>attemptCounter := attemptCounter g + 1\<rparr>"
    using invalid_step [of db e email passwd g m] by (simp add: r_def)
  from Cons.prems(2) rs have "\<forall>r \<in> set rs1. \<exists>m. r = Failure INVALID_CREDENTIALS m" by simp
  with Cons.IH [OF c]
  have "g1 = (after r)\<lparr>attemptCounter := attemptCounter (after r) + int (length as)\<rparr>"
    by simp
  with step g' show ?case by simp
qed

lemma counter_ok_step: "counter_ok g \<Longrightarrow> counter_ok (after (mockLogin db e email passwd g))"
  by (cases rule: mockLogin_cases
        [where e = e and g = g and db = db and email = email and passwd = passwd])
     (simp_all add: counter_ok_def mockLogin_locked mockLogin_trigger mockLogin_invalid
        mockLogin_success)

lemma counter_ok_calls: "counter_ok g \<Longrightarrow> counter_ok (snd (calls db g as))"
proof (induction as arbitrary: g)
  case Nil
  then show ?case by simp
next
  case (Cons a as)
  obtain e email passwd where a: "a = (e, email, passwd)" by (cases a)
  have "counter_ok (after (mockLogin db e email passwd g))"
    using Cons.prems by (rule counter_ok_step)
  then have "counter_ok (snd (calls db (after (mockLogin db e email passwd g)) as))"
    by (rule Cons.IH)
  then show ?case by (simp only: a calls_Cons_snd)
qed

lemma lockedUntil_step:
  assumes "now1 e < now2 e + 30000"
  shows "lockedUntil g \<le> lockedUntil (after (mockLogin db e email passwd g))"
  using assms
  by (cases rule: mockLogin_cases
        [where e = e and g = g and db = db and email = email and passwd = passwd])
     (simp_all add: mockLogin_locked mockLogin_trigger mockLogin_invalid mockLogin_success)

lemma lockedUntil_calls:
  assumes "\<forall>a \<in> set as. now1 (fst a) < now2 (fst a) + 30000"
  shows "lockedUntil g \<le> lockedUntil (snd (calls db g as))"
  using assms
proof (induction as arbitrary: g)
  case Nil
  then show ?case by simp
next
  case (Cons a as)
  obtain e email passwd where a: "a = (e, email, passwd)" by (cases a)
  from Cons.prems have "now1 e < now2 e + 30000" by (simp add: a)
  then have "lockedUntil g \<le> lockedUntil (after (mockLogin db e email passwd g))"
    by (rule lockedUntil_step)
  also have "\<dots> \<le> lockedUntil (snd (calls db (after (mockLogin db e email passwd g)) as))"
    using Cons.prems by (intro Cons.IH) simp
  finally show ?case by (simp only: a calls_Cons_snd)
qed

section \<open>Properties\<close>

text \<open>
  C1. Start with \<open>attemptCounter = 0\<close> in a state that is not locked at the time
  \<open>tstart\<close>. If four consecutive calls each answer \<open>INVALID_CREDENTIALS\<close>, then a
  fifth call with wrong credentials, whose clock reading is not before \<open>tstart\<close>, answers
  \<open>LOCKED\<close> with the message "Account temporarily locked due to repeated failures.
  Please wait 30 seconds.", sets \<open>lockedUntil\<close> to the clock reading taken at that moment
  plus 30000 and resets \<open>attemptCounter\<close> to 0; the state is locked at every time of the
  30 seconds that follow that reading. The four earlier calls may use any emails and
  passwords.
\<close>

theorem fifth_failure_locks:
  assumes start: "attemptCounter g = 0" "lockedUntil g \<le> tstart"
    and four: "length as = 4" "calls db g as = (rs, g')"
      "\<forall>r \<in> set rs. \<exists>m. r = Failure INVALID_CREDENTIALS m"
    and fifth: "tstart \<le> now1 e" "\<not> correct db email passwd"
  shows "response (mockLogin db e email passwd g') =
           Failure LOCKED
             ''Account temporarily locked due to repeated failures. Please wait 30 seconds.''
         \<and> after (mockLogin db e email passwd g') =
             \<lparr>attemptCounter = 0, lockedUntil = now2 e + 30000\<rparr>
         \<and> (\<forall>u. now2 e \<le> u \<and> u < now2 e + 30000 \<longrightarrow>
               isLocked (after (mockLogin db e email passwd g')) u)"
proof -
  have g': "g' = g\<lparr>attemptCounter := 4\<rparr>"
    using invalid_calls [OF four(2,3)] start(1) four(1) by simp
  then have "\<not> now1 e < lockedUntil g'" "4 \<le> attemptCounter g'"
    using start(2) fifth(1) by simp_all
  then show ?thesis using fifth(2) by (simp add: mockLogin_trigger isLocked_def)
qed

theorem fifth_failure_locks_witness:
  "calls DEMO_DB initial
     [(\<lparr>random1 = 1 / 2, now1 = 1000, now2 = 1001, random36 = ''0.k3f9''\<rparr>,
         ''mock@email.com'', ''nope''),
      (\<lparr>random1 = 1 / 2, now1 = 2000, now2 = 2001, random36 = ''0.k3f9''\<rparr>,
         ''mock@email.com'', ''nope''),
      (\<lparr>random1 = 1 / 2, now1 = 3000, now2 = 3001, random36 = ''0.k3f9''\<rparr>,
         ''nobody@email.com'', ''Password123''),
      (\<lparr>random1 = 1 / 2, now1 = 4000, now2 = 4001, random36 = ''0.k3f9''\<rparr>,
         ''mock@email.com'', ''password123'')]
   = ([Failure INVALID_CREDENTIALS ''Email or password is incorrect.'',
       Failure INVALID_CREDENTIALS ''Email or password is incorrect.'',
       Failure INVALID_CREDENTIALS ''Email or password is incorrect.'',
       Failure INVALID_CREDENTIALS ''Email or password is incorrect.''],
      \<lparr>attemptCounter = 4, lockedUntil = 0\<rparr>)
   \<and> response (mockLogin DEMO_DB
         \<lparr>random1 = 1 / 2, now1 = 5000, now2 = 5001, random36 = ''0.k3f9''\<rparr>
         ''mock@email.com'' ''nope'' \<lparr>attemptCounter = 4, lockedUntil = 0\<rparr>)
       = Failure LOCKED
           ''Account temporarily locked due to repeated failures. Please wait 30 seconds.''
   \<and> after (mockLogin DEMO_DB
         \<lparr>random1 = 1 / 2, now1 = 5000, now2 = 5001, random36 = ''0.k3f9''\<rparr>
         ''mock@email.com'' ''nope'' \<lparr>attemptCounter = 4, lockedUntil = 0\<rparr>)
       = \<lparr>attemptCounter = 0, lockedUntil = 35001\<rparr>
   \<and> isLocked (after (mockLogin DEMO_DB
         \<lparr>random1 = 1 / 2, now1 = 5000, now2 = 5001, random36 = ''0.k3f9''\<rparr>
         ''mock@email.com'' ''nope'' \<lparr>attemptCounter = 4, lockedUntil = 0\<rparr>)) 35000"
proof -
  have lower: "toLowerCase ''nobody@email.com'' = ''nobody@email.com''" by code_simp
  have wrong: "\<not> correct DEMO_DB ''mock@email.com'' ''nope''"
    "\<not> correct DEMO_DB ''nobody@email.com'' ''Password123''"
    "\<not> correct DEMO_DB ''mock@email.com'' ''password123''"
    by (simp_all add: correct_def DEMO_DB_def lower_demo_key lower)
  have a1: "attemptCounter initial = 0" and a2: "lockedUntil initial \<le> 1000"
    by (simp_all add: initial_def)
  let ?as = "[(\<lparr>random1 = 1 / 2, now1 = 1000, now2 = 1001, random36 = ''0.k3f9''\<rparr>,
         ''mock@email.com'', ''nope''),
      (\<lparr>random1 = 1 / 2, now1 = 2000, now2 = 2001, random36 = ''0.k3f9''\<rparr>,
         ''mock@email.com'', ''nope''),
      (\<lparr>random1 = 1 / 2, now1 = 3000, now2 = 3001, random36 = ''0.k3f9''\<rparr>,
         ''nobody@email.com'', ''Password123''),
      (\<lparr>random1 = 1 / 2, now1 = 4000, now2 = 4001, random36 = ''0.k3f9''\<rparr>,
         ''mock@email.com'', ''password123'')]"
  let ?rs = "[Failure INVALID_CREDENTIALS ''Email or password is incorrect.'',
       Failure INVALID_CREDENTIALS ''Email or password is incorrect.'',
       Failure INVALID_CREDENTIALS ''Email or password is incorrect.'',
       Failure INVALID_CREDENTIALS ''Email or password is incorrect.'']"
  let ?e = "\<lparr>random1 = 1 / 2, now1 = 5000, now2 = 5001, random36 = ''0.k3f9''\<rparr>"
  have a3: "length ?as = 4" by simp
  have a4: "calls DEMO_DB initial ?as = (?rs, \<lparr>attemptCounter = 4, lockedUntil = 0\<rparr>)"
    using wrong by (simp add: initial_def mockLogin_invalid)
  have a5: "\<forall>r \<in> set ?rs. \<exists>m. r = Failure INVALID_CREDENTIALS m" by simp
  have a6: "1000 \<le> now1 ?e" by simp
  from fifth_failure_locks [OF a1 a2 a3 a4 a5 a6 wrong(1)] a4
  show ?thesis by (simp add: isLocked_def)
qed

text \<open>
  C2. An attempt whose clock reading after the delay is before \<open>lockedUntil\<close> is
  answered with the failure code \<open>LOCKED\<close> and the message
  "Too many attempts. Try again in Ns.", where N is \<^verbatim>\<open>Math.ceil((lockedUntil - now) / 1000)\<close>;
  neither \<open>attemptCounter\<close> nor \<open>lockedUntil\<close> changes. The credentials play no role: the
  statement holds for every directory, email and password. For a remaining time below
  \<open>2^52\<close> milliseconds N is the exact quotient rounded up.
\<close>

theorem locked_attempt_rejected:
  assumes "now1 e < lockedUntil g"
  shows "response (mockLogin db e email passwd g) =
           Failure LOCKED
             (''Too many attempts. Try again in ''
                @ showInt \<lceil>double_div (of_int (lockedUntil g - now1 e)) 1000\<rceil> @ ''s.'')
         \<and> after (mockLogin db e email passwd g) = g
         \<and> (lockedUntil g - now1 e < 2 ^ 52 \<longrightarrow>
              \<lceil>double_div (of_int (lockedUntil g - now1 e)) 1000\<rceil>
                = \<lceil>of_int (lockedUntil g - now1 e) / (1000 :: rat)\<rceil>)"
  using assms by (simp add: mockLogin_locked remain_exact del: of_int_diff)

theorem locked_attempt_rejected_witness:
  "now1 \<lparr>random1 = 1 / 4, now1 = 2500, now2 = 2501, random36 = ''0.k3f9''\<rparr>
     < lockedUntil \<lparr>attemptCounter = 3, lockedUntil = 31000\<rparr>
   \<and> response (mockLogin DEMO_DB \<lparr>random1 = 1 / 4, now1 = 2500, now2 = 2501, random36 = ''0.k3f9''\<rparr>
        ''mock@email.com'' ''Password123'' \<lparr>attemptCounter = 3, lockedUntil = 31000\<rparr>)
       = Failure LOCKED ''Too many attempts. Try again in 29s.''
   \<and> after (mockLogin DEMO_DB \<lparr>random1 = 1 / 4, now1 = 2500, now2 = 2501, random36 = ''0.k3f9''\<rparr>
        ''mock@email.com'' ''Password123'' \<lparr>attemptCounter = 3, lockedUntil = 31000\<rparr>)
       = \<lparr>attemptCounter = 3, lockedUntil = 31000\<rparr>"
proof -
  have r: "\<lceil>double_div 28500 1000\<rceil> = 29"
    using remain_exact [of 28500] by (simp add: ceiling_rat_numeral)
  from locked_attempt_rejected
    [of "\<lparr>random1 = 1 / 4, now1 = 2500, now2 = 2501, random36 = ''0.k3f9''\<rparr>"
        "\<lparr>attemptCounter = 3, lockedUntil = 31000\<rparr>" DEMO_DB "''mock@email.com''"
        "''Password123''"]
  show ?thesis by (simp add: r showInt_def decimal.simps digit_values)
qed

text \<open>
  C3, as the code has it. An attempt made while not locked, whose lower-cased email has an
  entry in the directory with exactly the given password, resets \<open>attemptCounter\<close> to 0
  and answers \<open>Success\<close>. The token is the radix-36 rendering of the random draw without
  its first two characters (\<^verbatim>\<open>.slice(2)\<close>): it is non-empty exactly when the rendering has
  more than two characters ("0." and at least one digit).
\<close>

theorem success_resets_counter:
  assumes "\<not> isLocked g (now1 e)"
    and "db (toLowerCase email) = Some r" "password r = passwd"
  shows "attemptCounter (after (mockLogin db e email passwd g)) = 0
         \<and> response (mockLogin db e email passwd g) = Success (drop 2 (random36 e))
         \<and> (token (response (mockLogin db e email passwd g)) \<noteq> [] \<longleftrightarrow> 2 < length (random36 e))"
proof -
  have "correct db email passwd" using assms(2,3) by (auto simp: correct_iff)
  with assms(1) show ?thesis by (auto simp: mockLogin_success isLocked_def)
qed

theorem success_resets_counter_witness:
  "\<not> isLocked \<lparr>attemptCounter = 3, lockedUntil = 500\<rparr> 1000
   \<and> DEMO_DB (toLowerCase ''Mock@Email.COM'') = Some \<lparr>password = ''Password123''\<rparr>
   \<and> attemptCounter (after (mockLogin DEMO_DB
         \<lparr>random1 = 1 / 2, now1 = 1000, now2 = 1001, random36 = ''0.k3f9''\<rparr>
         ''Mock@Email.COM'' ''Password123'' \<lparr>attemptCounter = 3, lockedUntil = 500\<rparr>)) = 0
   \<and> response (mockLogin DEMO_DB
         \<lparr>random1 = 1 / 2, now1 = 1000, now2 = 1001, random36 = ''0.k3f9''\<rparr>
         ''Mock@Email.COM'' ''Password123'' \<lparr>attemptCounter = 3, lockedUntil = 500\<rparr>)
       = Success ''k3f9''"
proof -
  let ?e = "\<lparr>random1 = 1 / 2, now1 = 1000, now2 = 1001, random36 = ''0.k3f9''\<rparr>"
  let ?g = "\<lparr>attemptCounter = 3, lockedUntil = 500\<rparr>"
  have a1: "\<not> isLocked ?g (now1 ?e)" by (simp add: isLocked_def)
  have a2: "DEMO_DB (toLowerCase ''Mock@Email.COM'') = Some \<lparr>password = ''Password123''\<rparr>"
    by (simp add: DEMO_DB_def lower_demo_mixed)
  have a3: "password \<lparr>password = ''Password123''\<rparr> = ''Password123''" by simp
  from success_resets_counter
    [where db = DEMO_DB and email = "''Mock@Email.COM''", OF a1 a2 a3] a1 a2
  show ?thesis by simp
qed

text \<open>
  The claim C3 as stated asks for a non-empty token on every such attempt. When the draw
  is 0 its rendering is "0" (the rendering of zero in every radix), and the token
  is the empty string.
\<close>

theorem empty_token_counterexample:
  "\<not> isLocked initial 1000
   \<and> DEMO_DB (toLowerCase ''mock@email.com'') = Some \<lparr>password = ''Password123''\<rparr>
   \<and> response (mockLogin DEMO_DB \<lparr>random1 = 1 / 2, now1 = 1000, now2 = 1001, random36 = ''0''\<rparr>
        ''mock@email.com'' ''Password123'' initial) = Success ''''"
  by (simp add: isLocked_def initial_def mockLogin_def correct_def DEMO_DB_def lower_demo_key
      Let_def)

text \<open>
  C4. The credentials are judged correct if and only if the directory has an entry under
  the lower-cased email and the password of that entry equals the given password
  character for character; an attempt that is not locked succeeds exactly in this case.
  Hence, for an entry stored under a lower-case key (the directory maps lower-cased
  emails), an email that differs from the key only in the case of its letters matches,
  and a password that differs from the stored one, be it only in the case of a letter,
  does not. The lookup key is always in lower case, so that an entry stored under a key
  with a capital letter is reached by no email at all.
\<close>

theorem credentials_matching:
  "(correct db email passwd \<longleftrightarrow>
      (\<exists>r. db (toLowerCase email) = Some r \<and> password r = passwd))
   \<and> (\<not> isLocked g (now1 e) \<longrightarrow>
        ((\<exists>t. response (mockLogin db e email passwd g) = Success t)
           \<longleftrightarrow> correct db email passwd))
   \<and> (db k = Some r \<and> toLowerCase k = k \<and> toLowerCase email = toLowerCase k
        \<longrightarrow> correct db email (password r))
   \<and> (db (toLowerCase email) = Some r \<and> passwd \<noteq> password r
        \<longrightarrow> \<not> correct db email passwd)
   \<and> (toLowerCase k \<noteq> k \<longrightarrow> toLowerCase email \<noteq> k)"
proof -
  have judged: "correct db email passwd \<longleftrightarrow>
      (\<exists>r. db (toLowerCase email) = Some r \<and> password r = passwd)"
    by (rule correct_iff)
  have outcome: "\<not> isLocked g (now1 e) \<longrightarrow>
        ((\<exists>t. response (mockLogin db e email passwd g) = Success t)
           \<longleftrightarrow> correct db email passwd)"
    by (simp add: success_iff isLocked_def)
  have email_case: "db k = Some r \<and> toLowerCase k = k \<and> toLowerCase email = toLowerCase k
        \<longrightarrow> correct db email (password r)"
    by (simp add: correct_iff)
  have password_case: "db (toLowerCase email) = Some r \<and> passwd \<noteq> password r
        \<longrightarrow> \<not> correct db email passwd"
    by (auto simp: correct_iff)
  have unreachable: "toLowerCase k \<noteq> k \<longrightarrow> toLowerCase email \<noteq> k"
    using toLowerCase_idem [of email] by auto
  from judged outcome email_case password_case unreachable show ?thesis by blast
qed

theorem credentials_matching_witness:
  "DEMO_DB ''mock@email.com'' = Some \<lparr>password = ''Password123''\<rparr>
   \<and> toLowerCase ''mock@email.com'' = ''mock@email.com''
   \<and> toLowerCase ''Mock@Email.COM'' = toLowerCase ''mock@email.com''
   \<and> ''Mock@Email.COM'' \<noteq> ''mock@email.com''
   \<and> correct DEMO_DB ''Mock@Email.COM'' ''Password123''
   \<and> toLowerCase ''password123'' = toLowerCase ''Password123''
   \<and> ''password123'' \<noteq> ''Password123''
   \<and> \<not> correct DEMO_DB ''Mock@Email.COM'' ''password123''
   \<and> \<not> isLocked initial 1000
   \<and> (\<nexists>t. response (mockLogin DEMO_DB
          \<lparr>random1 = 1 / 2, now1 = 1000, now2 = 1001, random36 = ''0.k3f9''\<rparr>
          ''Mock@Email.COM'' ''password123'' initial) = Success t)"
proof -
  have lower: "toLowerCase ''password123'' = toLowerCase ''Password123''" by code_simp
  have entry: "DEMO_DB ''mock@email.com'' = Some \<lparr>password = ''Password123''\<rparr>"
    by (simp add: DEMO_DB_def)
  have unlocked: "\<not> isLocked initial 1000" by (simp add: isLocked_def initial_def)
  from credentials_matching
    [of DEMO_DB "''Mock@Email.COM''" "''password123''" initial
        "\<lparr>random1 = 1 / 2, now1 = 1000, now2 = 1001, random36 = ''0.k3f9''\<rparr>"
        "''mock@email.com''" "\<lparr>password = ''Password123''\<rparr>"]
    entry unlocked lower
  show ?thesis by (simp add: lower_demo_key lower_demo_mixed)
qed

text \<open>
  C5, as the code has it. Every call returns a value of the response type: a \<open>Success\<close>
  with a token, or a \<open>Failure\<close> whose code is \<open>INVALID_CREDENTIALS\<close> or \<open>LOCKED\<close>; the
  function has no path that throws. Failure messages of three forms occur, and they are
  pairwise different strings. The code tells the failure for wrong credentials from both
  lock failures; the two lock failures (the lock that is already in force, the lock that
  this call has just set) carry the same code \<open>LOCKED\<close> and differ in the message alone.
\<close>

theorem typed_outcome:
  "((\<exists>t. response (mockLogin db e email passwd g) = Success t)
    \<or> response (mockLogin db e email passwd g) =
         Failure INVALID_CREDENTIALS ''Email or password is incorrect.''
    \<or> response (mockLogin db e email passwd g) =
         Failure LOCKED
           ''Account temporarily locked due to repeated failures. Please wait 30 seconds.''
    \<or> (\<exists>n. 1 \<le> n \<and> response (mockLogin db e email passwd g) =
         Failure LOCKED (''Too many attempts. Try again in '' @ showInt n @ ''s.'')))
   \<and> ''Email or password is incorrect.'' \<noteq>
       ''Account temporarily locked due to repeated failures. Please wait 30 seconds.''
   \<and> ''Email or password is incorrect.'' \<noteq>
       ''Too many attempts. Try again in '' @ showInt k @ ''s.''
   \<and> ''Account temporarily locked due to repeated failures. Please wait 30 seconds.'' \<noteq>
       ''Too many attempts. Try again in '' @ showInt k @ ''s.''
   \<and> INVALID_CREDENTIALS \<noteq> LOCKED"
proof -
  have "(\<exists>t. response (mockLogin db e email passwd g) = Success t)
    \<or> response (mockLogin db e email passwd g) =
         Failure INVALID_CREDENTIALS ''Email or password is incorrect.''
    \<or> response (mockLogin db e email passwd g) =
         Failure LOCKED
           ''Account temporarily locked due to repeated failures. Please wait 30 seconds.''
    \<or> (\<exists>n. 1 \<le> n \<and> response (mockLogin db e email passwd g) =
         Failure LOCKED (''Too many attempts. Try again in '' @ showInt n @ ''s.''))"
  proof (cases rule: mockLogin_cases
      [where e = e and g = g and db = db and email = email and passwd = passwd])
    case locked
    then have "1 \<le> \<lceil>double_div (of_int (lockedUntil g - now1 e)) 1000\<rceil>"
      by (intro remain_ge_1) simp
    moreover have "response (mockLogin db e email passwd g) =
        Failure LOCKED (''Too many attempts. Try again in ''
          @ showInt \<lceil>double_div (of_int (lockedUntil g - now1 e)) 1000\<rceil> @ ''s.'')"
      using locked by (simp only: mockLogin_locked result.simps)
    ultimately show ?thesis by blast
  next
    case trigger
    then show ?thesis by (simp add: mockLogin_trigger)
  next
    case invalid
    then show ?thesis by (simp add: mockLogin_invalid)
  next
    case success
    then show ?thesis by (simp add: mockLogin_success)
  qed
  then show ?thesis by simp
qed

theorem typed_outcome_witness:
  "response (mockLogin DEMO_DB
      \<lparr>random1 = 1 / 2, now1 = 1000, now2 = 1001, random36 = ''0.k3f9''\<rparr>
      ''mock@email.com'' ''nope'' \<lparr>attemptCounter = 0, lockedUntil = 31000\<rparr>)
     = Failure LOCKED (''Too many attempts. Try again in '' @ showInt 30 @ ''s.'')
   \<and> ''Email or password is incorrect.'' \<noteq>
       ''Too many attempts. Try again in '' @ showInt 30 @ ''s.''
   \<and> ''Account temporarily locked due to repeated failures. Please wait 30 seconds.'' \<noteq>
       ''Too many attempts. Try again in '' @ showInt 30 @ ''s.''"
proof -
  have r: "\<lceil>double_div 30000 1000\<rceil> = 30"
    using remain_exact [of 30000] by simp
  from typed_outcome
    [of DEMO_DB "\<lparr>random1 = 1 / 2, now1 = 1000, now2 = 1001, random36 = ''0.k3f9''\<rparr>"
        "''mock@email.com''" "''nope''" "\<lparr>attemptCounter = 0, lockedUntil = 31000\<rparr>" 30]
  show ?thesis by (simp add: mockLogin_locked r)
qed

text \<open>
  The claim C5 as stated has the three failures told apart pairwise by the typed kind.
  A call made under a lock and a call that sets the lock both answer with the code
  \<open>LOCKED\<close>; only the message strings differ.
\<close>

theorem locked_kinds_counterexample:
  "response (mockLogin DEMO_DB
      \<lparr>random1 = 1 / 2, now1 = 1000, now2 = 1001, random36 = ''0.k3f9''\<rparr>
      ''mock@email.com'' ''nope'' \<lparr>attemptCounter = 0, lockedUntil = 31000\<rparr>)
     = Failure LOCKED ''Too many attempts. Try again in 30s.''
   \<and> response (mockLogin DEMO_DB
      \<lparr>random1 = 1 / 2, now1 = 1000, now2 = 1001, random36 = ''0.k3f9''\<rparr>
      ''mock@email.com'' ''nope'' \<lparr>attemptCounter = 4, lockedUntil = 0\<rparr>)
     = Failure LOCKED
         ''Account temporarily locked due to repeated failures. Please wait 30 seconds.''
   \<and> code (response (mockLogin DEMO_DB
      \<lparr>random1 = 1 / 2, now1 = 1000, now2 = 1001, random36 = ''0.k3f9''\<rparr>
      ''mock@email.com'' ''nope'' \<lparr>attemptCounter = 0, lockedUntil = 31000\<rparr>))
     = code (response (mockLogin DEMO_DB
      \<lparr>random1 = 1 / 2, now1 = 1000, now2 = 1001, random36 = ''0.k3f9''\<rparr>
      ''mock@email.com'' ''nope'' \<lparr>attemptCounter = 4, lockedUntil = 0\<rparr>))"
proof -
  have wrong: "\<not> correct DEMO_DB ''mock@email.com'' ''nope''"
    by (simp add: correct_def DEMO_DB_def lower_demo_key)
  moreover have "\<lceil>double_div 30000 1000\<rceil> = 30"
    using remain_exact [of 30000] by simp
  ultimately show ?thesis
    by (simp add: mockLogin_locked mockLogin_trigger showInt_def decimal.simps digit_values)
qed

text \<open>
  C6. A call that answers \<open>Success\<close> leaves \<open>lockedUntil\<close> as it was: the state after the
  call is the state before it with \<open>attemptCounter\<close> set to 0 and nothing else changed.
\<close>

theorem success_keeps_lock:
  assumes "response (mockLogin db e email passwd g) = Success t"
  shows "lockedUntil (after (mockLogin db e email passwd g)) = lockedUntil g
         \<and> after (mockLogin db e email passwd g) = g\<lparr>attemptCounter := 0\<rparr>"
proof -
  from assms have "\<not> now1 e < lockedUntil g \<and> correct db email passwd"
    using success_iff [of db e email passwd g] by blast
  then show ?thesis by (simp add: mockLogin_success)
qed

theorem success_keeps_lock_witness:
  "response (mockLogin DEMO_DB
      \<lparr>random1 = 1 / 2, now1 = 1000, now2 = 1001, random36 = ''0.k3f9''\<rparr>
      ''mock@email.com'' ''Password123'' \<lparr>attemptCounter = 3, lockedUntil = 500\<rparr>)
     = Success ''k3f9''
   \<and> after (mockLogin DEMO_DB
      \<lparr>random1 = 1 / 2, now1 = 1000, now2 = 1001, random36 = ''0.k3f9''\<rparr>
      ''mock@email.com'' ''Password123'' \<lparr>attemptCounter = 3, lockedUntil = 500\<rparr>)
     = \<lparr>attemptCounter = 0, lockedUntil = 500\<rparr>"
proof -
  have right: "correct DEMO_DB ''mock@email.com'' ''Password123''"
    by (simp add: correct_def DEMO_DB_def lower_demo_key)
  then have r: "response (mockLogin DEMO_DB
      \<lparr>random1 = 1 / 2, now1 = 1000, now2 = 1001, random36 = ''0.k3f9''\<rparr>
      ''mock@email.com'' ''Password123'' \<lparr>attemptCounter = 3, lockedUntil = 500\<rparr>)
     = Success ''k3f9''"
    by (simp add: mockLogin_success)
  from success_keeps_lock [OF r] r show ?thesis by simp
qed

text \<open>
  C7, as the code has it. For every draw \<open>r\<close> with \<open>0 \<le> r < 1\<close> the argument of \<^verbatim>\<open>sleep\<close>,
  \<^verbatim>\<open>700 + r * 500\<close> computed in double arithmetic, lies in the closed interval from 700 to
  1200. The sleep is the first effect of every call: the clock reading used for the lock
  check follows it, and so does the lookup in the directory; no call sleeps twice.
\<close>

theorem sleep_first_and_bounded:
  assumes "0 \<le> random1 e" "random1 e < 1"
  shows "\<exists>rest. events (mockLogin db e email passwd g) =
            Sleep (delayMs (random1 e)) # DateNow (now1 e) # rest
          \<and> (\<forall>d. Sleep d \<notin> set rest)
          \<and> 700 \<le> delayMs (random1 e) \<and> delayMs (random1 e) \<le> 1200"
  using delayMs_bounds [OF assms]
  by (cases rule: mockLogin_cases
        [where e = e and g = g and db = db and email = email and passwd = passwd])
     (simp_all add: mockLogin_locked mockLogin_trigger mockLogin_invalid mockLogin_success)

theorem sleep_first_and_bounded_witness:
  "(0::rat) \<le> 1 / 2 \<and> (1 / 2 :: rat) < 1
   \<and> events (mockLogin DEMO_DB
       \<lparr>random1 = 1 / 2, now1 = 1000, now2 = 1001, random36 = ''0.k3f9''\<rparr>
       ''mock@email.com'' ''Password123'' initial)
     = [Sleep 950, DateNow 1000, Lookup ''mock@email.com'']
   \<and> (700::rat) \<le> delayMs (1 / 2) \<and> delayMs (1 / 2) \<le> 1200"
proof -
  let ?e = "\<lparr>random1 = 1 / 2, now1 = 1000, now2 = 1001, random36 = ''0.k3f9''\<rparr>"
  have a1: "0 \<le> random1 ?e" and a2: "random1 ?e < 1" by simp_all
  have right: "correct DEMO_DB ''mock@email.com'' ''Password123''"
    by (simp add: correct_def DEMO_DB_def lower_demo_key)
  from sleep_first_and_bounded [OF a1 a2, of DEMO_DB "''mock@email.com''" "''Password123''" initial]
    right
  show ?thesis by (simp add: mockLogin_success initial_def delayMs_half lower_demo_key)
qed

text \<open>
  The claim C7 as stated has the delay below 1200 for every draw below 1. For the largest
  double below 1, \<open>1 - 2^-53\<close>, the product rounds to \<open>500 - 2^-44\<close> and the sum rounds to
  1200: the call sleeps 1200 milliseconds. The draw \<open>1 - 2^-52\<close> gives 1200 as well.
\<close>

theorem delay_half_open_counterexample:
  "(0::rat) \<le> 1 - 1 / 2 ^ 53 \<and> (1 - 1 / 2 ^ 53 :: rat) < 1 \<and> is_double (1 - 1 / 2 ^ 53)
   \<and> \<not> delayMs (1 - 1 / 2 ^ 53) < 1200
   \<and> (0::rat) \<le> 1 - 1 / 2 ^ 52 \<and> (1 - 1 / 2 ^ 52 :: rat) < 1 \<and> is_double (1 - 1 / 2 ^ 52)
   \<and> \<not> delayMs (1 - 1 / 2 ^ 52) < 1200
   \<and> events (mockLogin DEMO_DB
       \<lparr>random1 = 1 - 1 / 2 ^ 53, now1 = 1000, now2 = 1001, random36 = ''0.k3f9''\<rparr>
       ''mock@email.com'' ''Password123'' initial)
     = [Sleep 1200, DateNow 1000, Lookup ''mock@email.com'']"
proof -
  have right: "correct DEMO_DB ''mock@email.com'' ''Password123''"
    by (simp add: correct_def DEMO_DB_def lower_demo_key)
  have "events (mockLogin DEMO_DB
       \<lparr>random1 = 1 - 1 / 2 ^ 53, now1 = 1000, now2 = 1001, random36 = ''0.k3f9''\<rparr>
       ''mock@email.com'' ''Password123'' initial)
     = [Sleep (delayMs (1 - 1 / 2 ^ 53)), DateNow 1000, Lookup ''mock@email.com'']"
    using right by (simp add: mockLogin_success initial_def lower_demo_key del: power_numeral)
  then show ?thesis using is_double_top is_double_top52
    by (simp only: delayMs_top delayMs_top52) simp
qed



text \<open>
  C9. Between calls \<open>attemptCounter\<close> is one of 0, 1, 2, 3, 4: every call preserves this
  range, the call that counts the fifth failure sets the counter back to 0, and the range
  holds after every sequence of calls from the initial state.
\<close>

theorem counter_between_calls:
  "(counter_ok g \<longrightarrow> counter_ok (after (mockLogin db e email passwd g)))
   \<and> (attemptCounter g = 4 \<and> \<not> isLocked g (now1 e) \<and> \<not> correct db email passwd
        \<longrightarrow> attemptCounter (after (mockLogin db e email passwd g)) = 0)
   \<and> attemptCounter (snd (calls db initial as)) \<in> {0, 1, 2, 3, 4}"
proof -
  have "counter_ok initial" by (simp add: counter_ok_def initial_def)
  then have "counter_ok (snd (calls db initial as))" by (rule counter_ok_calls)
  then have "attemptCounter (snd (calls db initial as)) \<in> {0, 1, 2, 3, 4}"
    unfolding counter_ok_def by auto
  moreover have "attemptCounter g = 4 \<and> \<not> isLocked g (now1 e) \<and> \<not> correct db email passwd
        \<longrightarrow> attemptCounter (after (mockLogin db e email passwd g)) = 0"
    by (simp add: isLocked_def mockLogin_trigger)
  ultimately show ?thesis using counter_ok_step by blast
qed

theorem counter_between_calls_witness:
  "counter_ok \<lparr>attemptCounter = 4, lockedUntil = 0\<rparr>
   \<and> \<not> isLocked \<lparr>attemptCounter = 4, lockedUntil = 0\<rparr> 1000
   \<and> \<not> correct DEMO_DB ''mock@email.com'' ''nope''
   \<and> counter_ok (after (mockLogin DEMO_DB
        \<lparr>random1 = 1 / 2, now1 = 1000, now2 = 1001, random36 = ''0.k3f9''\<rparr>
        ''mock@email.com'' ''nope'' \<lparr>attemptCounter = 4, lockedUntil = 0\<rparr>))
   \<and> attemptCounter (after (mockLogin DEMO_DB
        \<lparr>random1 = 1 / 2, now1 = 1000, now2 = 1001, random36 = ''0.k3f9''\<rparr>
        ''mock@email.com'' ''nope'' \<lparr>attemptCounter = 4, lockedUntil = 0\<rparr>)) = 0"
proof -
  have wrong: "\<not> correct DEMO_DB ''mock@email.com'' ''nope''"
    by (simp add: correct_def DEMO_DB_def lower_demo_key)
  have ok: "counter_ok \<lparr>attemptCounter = 4, lockedUntil = 0\<rparr>" by (simp add: counter_ok_def)
  from counter_between_calls
    [of "\<lparr>attemptCounter = 4, lockedUntil = 0\<rparr>" DEMO_DB
        "\<lparr>random1 = 1 / 2, now1 = 1000, now2 = 1001, random36 = ''0.k3f9''\<rparr>"
        "''mock@email.com''" "''nope''" "[]"] wrong ok
  show ?thesis by (simp add: isLocked_def)
qed

text \<open>
  C10, as the code has it. No call decreases \<open>lockedUntil\<close>, as long as the clock has not
  been set back by 30 seconds or more between the two readings of one call (in particular
  when it does not run backwards). A call made under a lock and a successful call leave \<open>lockedUntil\<close>
  unchanged; it changes only in a call whose reading after the delay is not before the
  old \<open>lockedUntil\<close>, and the new value, the clock reading at that moment plus 30000, is
  then strictly greater than the old one. The same holds along every sequence of calls.
\<close>

theorem lockedUntil_monotone:
  "(now1 e < now2 e + 30000 \<longrightarrow>
      lockedUntil g \<le> lockedUntil (after (mockLogin db e email passwd g))
      \<and> (lockedUntil (after (mockLogin db e email passwd g)) \<noteq> lockedUntil g \<longrightarrow>
            lockedUntil g \<le> now1 e
            \<and> lockedUntil (after (mockLogin db e email passwd g)) = now2 e + 30000
            \<and> lockedUntil g < lockedUntil (after (mockLogin db e email passwd g))))
   \<and> (isLocked g (now1 e) \<longrightarrow>
        lockedUntil (after (mockLogin db e email passwd g)) = lockedUntil g)
   \<and> ((\<exists>t. response (mockLogin db e email passwd g) = Success t) \<longrightarrow>
        lockedUntil (after (mockLogin db e email passwd g)) = lockedUntil g)
   \<and> ((\<forall>a \<in> set as. now1 (fst a) < now2 (fst a) + 30000) \<longrightarrow>
        lockedUntil g \<le> lockedUntil (snd (calls db g as)))"
proof -
  have "(\<forall>a \<in> set as. now1 (fst a) < now2 (fst a) + 30000) \<longrightarrow>
        lockedUntil g \<le> lockedUntil (snd (calls db g as))"
    using lockedUntil_calls by blast
  moreover have "now1 e < now2 e + 30000 \<longrightarrow>
      lockedUntil g \<le> lockedUntil (after (mockLogin db e email passwd g))
      \<and> (lockedUntil (after (mockLogin db e email passwd g)) \<noteq> lockedUntil g \<longrightarrow>
            lockedUntil g \<le> now1 e
            \<and> lockedUntil (after (mockLogin db e email passwd g)) = now2 e + 30000
            \<and> lockedUntil g < lockedUntil (after (mockLogin db e email passwd g)))"
    by (cases rule: mockLogin_cases
          [where e = e and g = g and db = db and email = email and passwd = passwd])
       (simp_all add: mockLogin_locked mockLogin_trigger mockLogin_invalid mockLogin_success)
  moreover have "isLocked g (now1 e) \<longrightarrow>
        lockedUntil (after (mockLogin db e email passwd g)) = lockedUntil g"
    by (simp add: isLocked_def mockLogin_locked)
  moreover have "(\<exists>t. response (mockLogin db e email passwd g) = Success t) \<longrightarrow>
        lockedUntil (after (mockLogin db e email passwd g)) = lockedUntil g"
    by (auto simp: success_iff mockLogin_success)
  ultimately show ?thesis by blast
qed

theorem lockedUntil_monotone_witness:
  "now1 \<lparr>random1 = 1 / 2, now1 = 40000, now2 = 40001, random36 = ''0.k3f9''\<rparr>
     < now2 \<lparr>random1 = 1 / 2, now1 = 40000, now2 = 40001, random36 = ''0.k3f9''\<rparr> + 30000
   \<and> lockedUntil (after (mockLogin DEMO_DB
        \<lparr>random1 = 1 / 2, now1 = 40000, now2 = 40001, random36 = ''0.k3f9''\<rparr>
        ''mock@email.com'' ''nope'' \<lparr>attemptCounter = 4, lockedUntil = 35001\<rparr>)) = 70001
   \<and> lockedUntil \<lparr>attemptCounter = 4, lockedUntil = 35001\<rparr>
       < lockedUntil (after (mockLogin DEMO_DB
        \<lparr>random1 = 1 / 2, now1 = 40000, now2 = 40001, random36 = ''0.k3f9''\<rparr>
        ''mock@email.com'' ''nope'' \<lparr>attemptCounter = 4, lockedUntil = 35001\<rparr>))
   \<and> isLocked \<lparr>attemptCounter = 4, lockedUntil = 35001\<rparr> 35000
   \<and> lockedUntil (after (mockLogin DEMO_DB
        \<lparr>random1 = 1 / 2, now1 = 35000, now2 = 35001, random36 = ''0.k3f9''\<rparr>
        ''mock@email.com'' ''nope'' \<lparr>attemptCounter = 4, lockedUntil = 35001\<rparr>)) = 35001
   \<and> lockedUntil \<lparr>attemptCounter = 4, lockedUntil = 35001\<rparr>
       \<le> lockedUntil (snd (calls DEMO_DB \<lparr>attemptCounter = 4, lockedUntil = 35001\<rparr>
            [(\<lparr>random1 = 1 / 2, now1 = 40000, now2 = 40001, random36 = ''0.k3f9''\<rparr>,
              ''mock@email.com'', ''nope'')]))"
proof -
  let ?g = "\<lparr>attemptCounter = 4, lockedUntil = 35001\<rparr>"
  let ?e = "\<lparr>random1 = 1 / 2, now1 = 40000, now2 = 40001, random36 = ''0.k3f9''\<rparr>"
  let ?e' = "\<lparr>random1 = 1 / 2, now1 = 35000, now2 = 35001, random36 = ''0.k3f9''\<rparr>"
  have wrong: "\<not> correct DEMO_DB ''mock@email.com'' ''nope''"
    by (simp add: correct_def DEMO_DB_def lower_demo_key)
  have changed: "lockedUntil (after (mockLogin DEMO_DB ?e ''mock@email.com'' ''nope'' ?g)) = 70001"
    using wrong by (simp add: mockLogin_trigger)
  from lockedUntil_monotone
      [of ?e ?g DEMO_DB "''mock@email.com''" "''nope''"
          "[(?e, ''mock@email.com'', ''nope'')]"]
    lockedUntil_monotone [of ?e' ?g DEMO_DB "''mock@email.com''" "''nope''" "[]"]
    changed
  show ?thesis by (simp add: isLocked_def)
qed

text \<open>
  The claim C10 as stated has no call ever decrease \<open>lockedUntil\<close>, the new value being
  the reading after the delay plus 30000. The new value comes from a second reading of
  the clock. Nine calls with wrong credentials lead from the initial state to the counter
  4 with \<open>lockedUntil = 45000\<close>; a tenth one that reads 50000 after the delay, and 10000
  when it sets the lock, leaves \<open>lockedUntil = 40000\<close>.
\<close>

theorem lockedUntil_decrease_counterexample:
  "snd (calls DEMO_DB initial
     [(\<lparr>random1 = 1 / 2, now1 = 11000, now2 = 11000, random36 = ''0.k3f9''\<rparr>,
         ''mock@email.com'', ''nope''),
      (\<lparr>random1 = 1 / 2, now1 = 12000, now2 = 12000, random36 = ''0.k3f9''\<rparr>,
         ''mock@email.com'', ''nope''),
      (\<lparr>random1 = 1 / 2, now1 = 13000, now2 = 13000, random36 = ''0.k3f9''\<rparr>,
         ''mock@email.com'', ''nope''),
      (\<lparr>random1 = 1 / 2, now1 = 14000, now2 = 14000, random36 = ''0.k3f9''\<rparr>,
         ''mock@email.com'', ''nope''),
      (\<lparr>random1 = 1 / 2, now1 = 15000, now2 = 15000, random36 = ''0.k3f9''\<rparr>,
         ''mock@email.com'', ''nope''),
      (\<lparr>random1 = 1 / 2, now1 = 46000, now2 = 46000, random36 = ''0.k3f9''\<rparr>,
         ''mock@email.com'', ''nope''),
      (\<lparr>random1 = 1 / 2, now1 = 47000, now2 = 47000, random36 = ''0.k3f9''\<rparr>,
         ''mock@email.com'', ''nope''),
      (\<lparr>random1 = 1 / 2, now1 = 48000, now2 = 48000, random36 = ''0.k3f9''\<rparr>,
         ''mock@email.com'', ''nope''),
      (\<lparr>random1 = 1 / 2, now1 = 49000, now2 = 49000, random36 = ''0.k3f9''\<rparr>,
         ''mock@email.com'', ''nope'')])
     = \<lparr>attemptCounter = 4, lockedUntil = 45000\<rparr>
   \<and> lockedUntil (after (mockLogin DEMO_DB
        \<lparr>random1 = 1 / 2, now1 = 50000, now2 = 10000, random36 = ''0.k3f9''\<rparr>
        ''mock@email.com'' ''nope'' \<lparr>attemptCounter = 4, lockedUntil = 45000\<rparr>)) = 40000
   \<and> lockedUntil (after (mockLogin DEMO_DB
        \<lparr>random1 = 1 / 2, now1 = 50000, now2 = 10000, random36 = ''0.k3f9''\<rparr>
        ''mock@email.com'' ''nope'' \<lparr>attemptCounter = 4, lockedUntil = 45000\<rparr>))
       < lockedUntil \<lparr>attemptCounter = 4, lockedUntil = 45000\<rparr>"
proof -
  have wrong: "\<not> correct DEMO_DB ''mock@email.com'' ''nope''"
    by (simp add: correct_def DEMO_DB_def lower_demo_key)
  then show ?thesis
    by (simp add: initial_def calls_Cons_snd mockLogin_invalid mockLogin_trigger
        del: calls.simps(2))
qed

end
